theory Spec2Isabelle
  imports Complex_Main "HOL-Library.Word" "HOL-Library.Signed_Division" "HOL-Library.Multiset"
begin

unbundle bit_operations_syntax

text \<open>
  A model of the C++ core of the study assistant and of the properties that its
  specification states about it: the frequency vector transform (\<open>transform.hpp\<close>), the
  document identity encoder (\<open>updateDB.hpp\<close>), and the ingestion and query functions
  (\<open>feature.hpp\<close>) over a model of the SQLite store. The definitions come first, each
  under the name it has in the source; the properties follow, one section per subject.
\<close>

section \<open>Numbers of the program\<close>

text \<open>
  The C++ type \<open>double\<close> is modelled by the real numbers extended with the three special
  values that IEEE arithmetic produces: plus and minus infinity and NaN. Rounding and
  signed zeros are not modelled: an operation on finite values returns the exact real
  result, and a zero divisor is the positive zero.
\<close>

datatype double = Finite real | PInf | NInf | NaN

fun ddiv :: "double \<Rightarrow> double \<Rightarrow> double" where
  "ddiv (Finite a) (Finite b) =
     (if b \<noteq> 0 then Finite (a / b)
      else if a = 0 then NaN else if 0 < a then PInf else NInf)"
| "ddiv NaN y = NaN"
| "ddiv x NaN = NaN"
| "ddiv (Finite a) PInf = Finite 0"
| "ddiv (Finite a) NInf = Finite 0"
| "ddiv PInf (Finite b) = (if 0 \<le> b then PInf else NInf)"
| "ddiv NInf (Finite b) = (if 0 \<le> b then NInf else PInf)"
| "ddiv PInf PInf = NaN"
| "ddiv PInf NInf = NaN"
| "ddiv NInf PInf = NaN"
| "ddiv NInf NInf = NaN"

fun dmul :: "double \<Rightarrow> double \<Rightarrow> double" where
  "dmul (Finite a) (Finite b) = Finite (a * b)"
| "dmul NaN y = NaN"
| "dmul x NaN = NaN"
| "dmul (Finite a) PInf = (if a = 0 then NaN else if 0 < a then PInf else NInf)"
| "dmul (Finite a) NInf = (if a = 0 then NaN else if 0 < a then NInf else PInf)"
| "dmul PInf (Finite b) = (if b = 0 then NaN else if 0 < b then PInf else NInf)"
| "dmul NInf (Finite b) = (if b = 0 then NaN else if 0 < b then NInf else PInf)"
| "dmul PInf PInf = PInf"
| "dmul PInf NInf = NInf"
| "dmul NInf PInf = NInf"
| "dmul NInf NInf = PInf"

fun dadd :: "double \<Rightarrow> double \<Rightarrow> double" where
  "dadd (Finite a) (Finite b) = Finite (a + b)"
| "dadd NaN y = NaN"
| "dadd x NaN = NaN"
| "dadd PInf NInf = NaN"
| "dadd NInf PInf = NaN"
| "dadd PInf y = PInf"
| "dadd x PInf = PInf"
| "dadd NInf y = NInf"
| "dadd x NInf = NInf"


fun dsqrt :: "double \<Rightarrow> double" where
  "dsqrt (Finite a) = (if a < 0 then NaN else Finite (sqrt a))"
| "dsqrt PInf = PInf"
| "dsqrt NInf = NaN"
| "dsqrt NaN = NaN"

fun is_finite :: "double \<Rightarrow> bool" where
  "is_finite (Finite a) = True"
| "is_finite x = False"

text \<open>
  The type \<open>int\<close> of the program has 32 bits. Its values are modelled as integers; where
  the program computes with them, the result is wrapped to 32 bits in two's complement
  (the C++ standard leaves signed overflow undefined; the wrap-around is what the
  multiplication and addition instructions of the target compute).
\<close>

definition int32 :: "int \<Rightarrow> int" where
  "int32 k = signed_take_bit 31 k"

definition double_of_int :: "int \<Rightarrow> double" where
  "double_of_int k = Finite (real_of_int k)"

text \<open>
  The conversion of a double to \<open>int\<close> drops the fraction. A value that has no \<open>int\<close>
  (out of range, infinite, NaN) is undefined in C++; the conversion instruction of x86
  returns the smallest \<open>int\<close> there.
\<close>

fun int_of_double :: "double \<Rightarrow> int" where
  "int_of_double (Finite a) =
     (if - 2147483649 < a \<and> a < 2147483648
      then (if 0 \<le> a then \<lfloor>a\<rfloor> else \<lceil>a\<rceil>) else - 2147483648)"
| "int_of_double x = - 2147483648"

text \<open>An \<open>int\<close> compared with a \<open>size_t\<close> is first converted to the unsigned 64-bit type.\<close>

definition size_t_of_int :: "int \<Rightarrow> nat" where
  "size_t_of_int k = nat (k mod 2 ^ 64)"

section \<open>Frequency vector transform (namespace TRANSFORMER)\<close>

text \<open>
  A \<open>std::map<std::string, int>\<close> is given by the list of its entries in iteration order
  (ascending keys, each key once).
\<close>

type_synonym token_map = "(string \<times> int) list"

definition compute_sum_token_json :: "token_map \<Rightarrow> int" where
  "compute_sum_token_json tokens = foldl (\<lambda>result (key, value). int32 (result + value)) 0 tokens"

text \<open>The lambda given to \<open>std::all_of\<close>: \<open>c >= 'a' && c <= 'z'\<close>.\<close>

definition is_lower_letter :: "char \<Rightarrow> bool" where
  "is_lower_letter c \<longleftrightarrow> (97::nat) \<le> of_char c \<and> of_char c \<le> (122::nat)"

definition contains_only_letters :: "string \<Rightarrow> bool" where
  "contains_only_letters token = list_all is_lower_letter token"

fun token_filter :: "token_map \<Rightarrow> int \<Rightarrow> int \<Rightarrow> double \<Rightarrow> (string \<times> int \<times> double) list" where
  "token_filter [] max_length min_value relational_distance = []"
| "token_filter ((first, second) # tokens) max_length min_value relational_distance =
     (if \<not> contains_only_letters first
      then token_filter tokens max_length min_value relational_distance
      else if length first \<le> size_t_of_int max_length \<and> min_value \<le> second
      then (first, second, ddiv (double_of_int second) relational_distance)
             # token_filter tokens max_length min_value relational_distance
      else token_filter tokens max_length min_value relational_distance)"

definition count_unique_tokens :: "token_map \<Rightarrow> int" where
  "count_unique_tokens tokens = int32 (int (length tokens))"

definition Pythagoras :: "token_map \<Rightarrow> double" where
  "Pythagoras tokens =
     dsqrt (foldl (\<lambda>result (key, value). dadd result (double_of_int (int32 (value * value))))
              (Finite 0) tokens)"

section \<open>Document identity encoder (namespace UPDATE_INFO)\<close>

text \<open>
  Output of an unsigned value on a stream in \<open>std::hex\<close> mode: lowercase digits, no
  leading zero, \<open>0\<close> for zero; \<open>std::setw\<close> with \<open>std::setfill\<close> pads on the left.
\<close>

definition hex_digit :: "nat \<Rightarrow> char" where
  "hex_digit d = ''0123456789abcdef'' ! d"

fun to_hex :: "nat \<Rightarrow> string" where
  "to_hex n = (if n < 16 then [hex_digit n] else to_hex (n div 16) @ [hex_digit (n mod 16)])"

declare to_hex.simps [simp del]

definition setw_fill :: "nat \<Rightarrow> char \<Rightarrow> string \<Rightarrow> string" where
  "setw_fill w c s = replicate (w - length s) c @ s"

text \<open>
  \<open>create_unique_id\<close>: the argument \<open>path\<close> is the generic string of the path, whose
  characters the loop adds up. The three \<open>int\<close> arguments are 32-bit words read in two's
  complement, the accumulator is a 64-bit word; \<open>std::max(1, chunk_count)\<close> is
  \<open>1 < chunk_count ? chunk_count : 1\<close>, and \<open>%\<close> is the remainder of the truncating
  division.
\<close>

definition create_unique_id :: "string \<Rightarrow> 32 word \<Rightarrow> 32 word \<Rightarrow> 32 word \<Rightarrow> string" where
  "create_unique_id path epoch_time chunk_count starting_id =
     (let encoded_file_name = foldl (\<lambda>acc c. acc + word_of_nat (of_char c)) (0 :: 64 word) path;
          encoded_file_name = encoded_file_name * scast (if 1 <s chunk_count then chunk_count else 1);
          encoded_file_name = encoded_file_name * scast epoch_time;
          encoded_file_name = encoded_file_name AND 0xFFFFFFFFFFFFFFFF;
          mod_starting_id =
            (if starting_id = 0 then word_of_int (sint epoch_time smod 3600) else starting_id);
          encoded_starting_id = (mod_starting_id * push_bit 1 (chunk_count + 1)) AND 0xFFFFFFFF;
          redundancy = (ucast (encoded_file_name XOR ucast encoded_starting_id) :: 32 word)
      in to_hex (unat encoded_file_name)
           @ setw_fill 8 (CHR ''0'') (to_hex (unat encoded_starting_id))
           @ setw_fill 8 (CHR ''0'') (to_hex (unat redundancy)))"

text \<open>
  The encoding as the specification words it, on unbounded integers with the truncations
  written out. Its \<open>mod 3600\<close> is the remainder operator of the source language.
\<close>

definition createId :: "string \<Rightarrow> int \<Rightarrow> int \<Rightarrow> int \<Rightarrow> string" where
  "createId path epochTime chunkCount startingId =
     (let encodedName = (int (sum_list (map of_char path)) * max 1 chunkCount * epochTime) mod 2 ^ 64;
          effectiveStartId = (if startingId = 0 then epochTime smod 3600 else startingId);
          encodedStart = (effectiveStartId * push_bit 1 (chunkCount + 1)) mod 2 ^ 32;
          redundancy = (encodedName XOR encodedStart) mod 2 ^ 32
      in to_hex (nat encodedName)
           @ setw_fill 8 (CHR ''0'') (to_hex (nat encodedStart))
           @ setw_fill 8 (CHR ''0'') (to_hex (nat redundancy)))"

section \<open>Vector store and ingestion (namespace FEATURE)\<close>

text \<open>The thresholds of \<open>env.hpp\<close>.\<close>

definition ENV_max_length :: int where
  "ENV_max_length = 14"

definition ENV_min_value :: int where
  "ENV_min_value = 3"

record DataEntry =
  path :: string
  sum_tokens :: int
  num_unique_tokens :: int
  filtered_tokens :: "(string \<times> int \<times> double) list"
  relational_distance :: double

text \<open>
  The loop of \<open>computeRelationalDistance\<close> that erases from the map of a file every entry
  below the minimum frequency, longer than the maximum length or with a character that is
  not a lowercase letter.
\<close>

definition erase_invalid :: "token_map \<Rightarrow> token_map" where
  "erase_invalid json_map =
     filter (\<lambda>(key, value).
        \<not> (value < ENV_min_value \<or> size_t_of_int ENV_max_length < length key
           \<or> \<not> list_all is_lower_letter key)) json_map"

text \<open>The row of a file: every field is computed from the map after the erasure.\<close>

definition DataEntry_row :: "string \<Rightarrow> token_map \<Rightarrow> DataEntry" where
  "DataEntry_row stem json_file =
     (let json_map = erase_invalid json_file;
          row = \<lparr>path = stem,
                 sum_tokens = compute_sum_token_json json_map,
                 num_unique_tokens = count_unique_tokens json_map,
                 filtered_tokens = [],
                 relational_distance = Pythagoras json_map\<rparr>
      in row\<lparr>filtered_tokens :=
               token_filter json_map ENV_max_length ENV_min_value (relational_distance row)\<rparr>)"

text \<open>
  The store. Table \<open>file_token\<close> has the primary key \<open>file_name\<close>, table
  \<open>relation_distance\<close> the primary key \<open>(file_name, Token)\<close>; \<open>file_info\<close> is the list of
  its rows \<open>(id, file_name)\<close> in the order a \<open>SELECT\<close> returns them, a column being
  \<open>None\<close> when it is \<open>NULL\<close>.
\<close>

record database =
  file_token :: "string \<rightharpoonup> int \<times> int \<times> double"
  relation_distance :: "string \<times> string \<rightharpoonup> int \<times> double"
  file_info :: "(string option \<times> string option) list"












text \<open>
  An input file is the stem of its name and the map that \<open>json_to_map\<close> reads from it,
  \<open>None\<close> when \<open>json_to_map\<close> throws. The loop over the files stops at the first exception.
\<close>

type_synonym json_file = "string \<times> token_map option"





section \<open>Query matcher (FEATURE::processPrompt)\<close>

text \<open>The norm of the prompt is kept in a variable of type \<open>int\<close>.\<close>

definition prompt_tokens :: "token_map \<Rightarrow> (string \<times> int \<times> double) list" where
  "prompt_tokens tokens =
     (let distance = int_of_double (Pythagoras tokens)
      in token_filter tokens 16 1 (double_of_int distance))"

text \<open>
  The rows of \<open>relation_distance\<close> whose token is one of the prompt's, as the nested
  \<open>std::map\<close> that the function fills: a file name is a key when it has such a row.
\<close>

definition relation_distance_map ::
  "database \<Rightarrow> (string \<times> int \<times> double) list \<Rightarrow> (string \<rightharpoonup> (string \<rightharpoonup> double))" where
  "relation_distance_map db fts =
     (\<lambda>file_name.
        if list_ex (\<lambda>(token, frequency, weight). relation_distance db (file_name, token) \<noteq> None) fts
        then Some (\<lambda>token.
               if token \<in> set (map fst fts)
               then map_option snd (relation_distance db (file_name, token)) else None)
        else None)"

definition total_distance ::
  "(string \<rightharpoonup> (string \<rightharpoonup> double)) \<Rightarrow> string \<Rightarrow> (string \<times> int \<times> double) list \<Rightarrow> double" where
  "total_distance rdm ident fts =
     foldl (\<lambda>total_distance (token, frequency, relational_distance_weight).
              case rdm (''title_'' @ ident) of
                None \<Rightarrow> total_distance
              | Some row \<Rightarrow>
                  (case row token of
                     None \<Rightarrow> total_distance
                   | Some rd \<Rightarrow> dadd total_distance (dmul relational_distance_weight rd)))
       (Finite 0) fts"

type_synonym result_row = "string \<times> string \<times> double"

definition RESULT :: "database \<Rightarrow> (string \<times> int \<times> double) list \<Rightarrow> result_row list" where
  "RESULT db fts =
     List.map_filter
       (\<lambda>(id_text, file_name_text).
          case (id_text, file_name_text) of
            (Some ident, Some file_name) \<Rightarrow>
              Some (ident, file_name, total_distance (relation_distance_map db fts) ident fts)
          | _ \<Rightarrow> None)
       (file_info db)"




section \<open>Notions of the specification\<close>

text \<open>The pattern \<open>[a-z]+\<close>: one or more lowercase letters.\<close>

definition matches_lower_plus :: "string \<Rightarrow> bool" where
  "matches_lower_plus token \<longleftrightarrow> token \<noteq> [] \<and> list_all is_lower_letter token"

text \<open>The Euclidean norm of a frequency map: \<open>sqrt(\<Sigma> freq(t)^2)\<close> over all its tokens.\<close>

definition euclidean_norm :: "token_map \<Rightarrow> real" where
  "euclidean_norm tokens = sqrt (\<Sum>(key, value) \<leftarrow> tokens. (real_of_int value)\<^sup>2)"

text \<open>
  The score of a document for a filtered query: the sum, over the tokens of the query in
  their order, of the weight of the token times the weight stored for the document and
  the token, a pair without a stored weight contributing 0.
\<close>

definition score :: "database \<Rightarrow> (string \<times> int \<times> double) list \<Rightarrow> string \<Rightarrow> double" where
  "score db filteredQuery doc =
     foldl dadd (Finite 0)
       (map (\<lambda>(token, frequency, weight).
               case relation_distance db (''title_'' @ doc, token) of
                 None \<Rightarrow> Finite 0
               | Some (storedFrequency, storedWeight) \<Rightarrow> dmul weight storedWeight)
          filteredQuery)"

fun real_of_double :: "double \<Rightarrow> real" where
  "real_of_double (Finite a) = a"
| "real_of_double x = 0"



section \<open>The token filter\<close>

lemma size_t_of_int_nonneg: "0 \<le> k \<Longrightarrow> k \<le> 2147483647 \<Longrightarrow> size_t_of_int k = nat k"
  by (simp add: size_t_of_int_def)

lemma token_filter_keys:
  "map (\<lambda>(k, v, w). (k, v)) (token_filter tokens max_length min_value rd) =
   filter (\<lambda>(k, v). contains_only_letters k \<and> length k \<le> size_t_of_int max_length \<and> min_value \<le> v) tokens"
proof (induction tokens)
  case Nil
  show ?case by simp
next
  case (Cons p tokens)
  obtain k v where p: "p = (k, v)" by (cases p)
  show ?case unfolding p using Cons.IH by simp
qed

text \<open>
  Claim C7, as amended. For a maximum length that is a non-negative \<open>int\<close>, the filter
  keeps, in their order, exactly the entries whose token consists of lowercase letters
  only (the pattern \<open>[a-z]*\<close>: the empty token passes), whose length is at most the
  maximum and whose frequency is at least the minimum.
\<close>

theorem token_filter_retains:
  assumes "0 \<le> max_length" and "max_length \<le> 2147483647"
  shows "map (\<lambda>(k, v, w). (k, v)) (token_filter tokens max_length min_value rd) =
         filter (\<lambda>(k, v). (\<forall>c \<in> set k. is_lower_letter c) \<and> int (length k) \<le> max_length \<and> min_value \<le> v) tokens"
proof -
  have s: "size_t_of_int max_length = nat max_length"
    using assms by (rule size_t_of_int_nonneg)
  have "(\<lambda>(k, v). contains_only_letters k \<and> length k \<le> size_t_of_int max_length \<and> min_value \<le> v) =
        (\<lambda>(k::string, v). (\<forall>c \<in> set k. is_lower_letter c) \<and> int (length k) \<le> max_length \<and> min_value \<le> v)"
    using assms(1) by (auto simp add: s contains_only_letters_def list_all_iff fun_eq_iff)
  then show ?thesis
    by (simp only: token_filter_keys)
qed

text \<open>
  The examples of the claim: \<open>Cat2\<close> with frequency 50, a token of 15 letters and a token
  of frequency 2 are dropped at the thresholds 14 and 3, \<open>zebra\<close> with frequency 3 is kept,
  and so is the empty token.
\<close>

theorem token_filter_retains_witness:
  "map (\<lambda>(k, v, w). (k, v))
     (token_filter [('''', 5), (''Cat2'', 50), (''abcdefghijklmno'', 7), (''dog'', 2), (''zebra'', 3)] 14 3 (Finite 1)) =
   [('''', 5), (''zebra'', 3)]"
  using token_filter_retains [of 14 "[('''', 5), (''Cat2'', 50), (''abcdefghijklmno'', 7), (''dog'', 2), (''zebra'', 3)]" 3 "Finite 1"]
  by (simp add: is_lower_letter_def)

text \<open>
  Claim C7 as it is stated fails: the empty token does not match \<open>[a-z]+\<close>, and the filter
  keeps it.
\<close>

theorem token_filter_plus_counterexample:
  "\<not> matches_lower_plus '''' \<and>
   token_filter [('''', 5)] 14 3 (Finite 1) = [('''', 5, Finite 5)]"
  by (simp add: matches_lower_plus_def contains_only_letters_def size_t_of_int_def double_of_int_def)

text \<open>
  Claim C10. An entry with the empty token and a frequency of at least the minimum is
  kept by the filter, whatever the maximum length, with the weight frequency divided by
  the norm that was passed in.
\<close>

theorem token_filter_keeps_empty_token:
  assumes "('''', v) \<in> set tokens" and "min_value \<le> v"
  shows "('''', v, ddiv (double_of_int v) rd) \<in> set (token_filter tokens max_length min_value rd)"
  using assms by (induction tokens) (auto simp add: contains_only_letters_def)

theorem token_filter_keeps_empty_token_witness:
  "('''', 3, Finite (3 / 5)) \<in> set (token_filter [('''', 3), (''dog'', 4)] 14 3 (Finite 5))"
  using token_filter_keeps_empty_token [of 3 "[('''', 3), (''dog'', 4)]" 3 "Finite 5" 14]
  by (simp add: double_of_int_def)

section \<open>The identity encoder\<close>

lemma byte_sum_foldl:
  "foldl (\<lambda>acc c. acc + word_of_nat (of_char c)) (a :: 64 word) p =
   a + word_of_nat (sum_list (map of_char p))"
  by (induction p arbitrary: a) (simp_all add: add.assoc)

lemma std_max_sint:
  "sint (if 1 <s (c :: 32 word) then c else 1) = max 1 (sint c)"
  by (simp add: word_sless_alt max_def)

lemma scast_word_of_int: "(scast (x :: 32 word) :: 64 word) = word_of_int (sint x)"
  by simp

lemma all_ones_64: "(x :: 64 word) AND 0xFFFFFFFFFFFFFFFF = x"
proof -
  have e: "(0xFFFFFFFFFFFFFFFF :: 64 word) = - 1" by simp
  show ?thesis unfolding e by (rule word_and_max)
qed

lemma all_ones_32: "(x :: 32 word) AND 0xFFFFFFFF = x"
proof -
  have e: "(0xFFFFFFFF :: 32 word) = - 1" by simp
  show ?thesis unfolding e by (rule word_and_max)
qed

lemma unat_word_of_int_64: "unat (word_of_int k :: 64 word) = nat (k mod 2 ^ 64)"
  by (simp add: unat_eq_nat_uint uint_word_of_int)

lemma unat_word_of_int_32: "unat (word_of_int k :: 32 word) = nat (k mod 2 ^ 32)"
  by (simp add: unat_eq_nat_uint uint_word_of_int)

lemma encoded_file_name_eq:
  "foldl (\<lambda>acc c. acc + word_of_nat (of_char c)) (0 :: 64 word) p
     * scast (if 1 <s (c :: 32 word) then c else 1) * scast (e :: 32 word) =
   word_of_int (int (sum_list (map of_char p)) * max 1 (sint c) * sint e)"
  unfolding byte_sum_foldl scast_word_of_int std_max_sint
  by (simp only: add_0 of_int_mult of_int_of_nat_eq)

lemma mod_starting_id_eq:
  "(if (s :: 32 word) = 0 then word_of_int (sint (e :: 32 word) smod 3600) else s) =
   word_of_int (if sint s = 0 then sint e smod 3600 else sint s)"
  by (simp add: signed_eq_0_iff)

lemma encoded_starting_id_eq:
  "(word_of_int m :: 32 word) * push_bit 1 ((c :: 32 word) + 1) =
   word_of_int (m * push_bit 1 (sint c + 1))"
proof -
  have "(c + 1) = word_of_int (sint c + 1)" by simp
  then show ?thesis by (simp add: push_bit_eq_mult)
qed

lemma redundancy_eq:
  "unat (ucast ((n :: 64 word) XOR ucast (s :: 32 word)) :: 32 word) =
   nat ((uint n XOR uint s) mod 2 ^ 32)"
proof -
  have "uint (ucast (n XOR ucast s) :: 32 word) = take_bit 32 (uint (n XOR ucast s))"
    by (simp add: unsigned_ucast_eq)
  also have "uint (n XOR ucast s) = uint n XOR uint (ucast s :: 64 word)"
    by (rule uint_xor)
  also have "uint (ucast s :: 64 word) = uint s"
    by (rule uint_up_ucast) (simp add: is_up)
  finally show ?thesis
    by (simp add: unat_eq_nat_uint take_bit_eq_mod)
qed

lemma remainder_nonneg: "0 \<le> e \<Longrightarrow> e smod 3600 = e mod (3600 :: int)"
  by (simp add: signed_modulo_int_def sgn_if)

text \<open>
  Claim C6. The identifier that \<open>create_unique_id\<close> computes with 64-bit and 32-bit
  machine arithmetic is the string of the specified encoding, computed on the integers that
  the three \<open>int\<close> arguments stand for: the byte sum of the path times
  \<open>max(1, chunkCount)\<close> times \<open>epochTime\<close> modulo \<open>2^64\<close> in hexadecimal, then the starting
  id (the remainder of \<open>epochTime\<close> by 3600 when it is 0) times \<open>(chunkCount + 1) << 1\<close>
  modulo \<open>2^32\<close> on 8 digits, then the exclusive or of the two modulo \<open>2^32\<close> on 8 digits.
  The right-hand side is a function of the four arguments alone, so two calls with the
  same arguments return the same string. The remainder is that of the truncating division
  of the source language; for an \<open>epochTime\<close> that is not negative it is the mathematical
  \<open>mod\<close> (lemma \<open>remainder_nonneg\<close>).
\<close>

theorem create_unique_id_encoding:
  "create_unique_id p epoch_time chunk_count starting_id =
   createId p (sint epoch_time) (sint chunk_count) (sint starting_id)"
proof -
  have un: "uint (word_of_int k :: 64 word) = k mod 2 ^ 64" for k
    by (simp add: uint_word_of_int)
  have us: "uint (word_of_int k :: 32 word) = k mod 2 ^ 32" for k
    by (simp add: uint_word_of_int)
  show ?thesis
    unfolding create_unique_id_def createId_def Let_def encoded_file_name_eq all_ones_64
      mod_starting_id_eq encoded_starting_id_eq all_ones_32 redundancy_eq un us
      unat_word_of_int_64 unat_word_of_int_32
    by (rule refl)
qed

lemma to_hex_small: "n < 16 \<Longrightarrow> to_hex n = [hex_digit n]"
  by (simp add: to_hex.simps)

lemma to_hex_large: "16 \<le> n \<Longrightarrow> to_hex n = to_hex (n div 16) @ [hex_digit (n mod 16)]"
  by (subst to_hex.simps) simp

lemma replicate_pad: "replicate (numeral k) x = x # replicate (pred_numeral k) x"
  by (simp add: numeral_eq_Suc)

lemma byte_sum_example: "sum_list (map of_char ''D:/a.pdf'') = (630 :: nat)"
  by simp

lemma createId_example_1: "createId ''D:/a.pdf'' 1700000000 12 5 = ''bb056e508000000008256e50882''"
  by (simp add: createId_def byte_sum_example to_hex_small to_hex_large hex_digit_def setw_fill_def
        signed_modulo_int_def replicate_pad)

lemma createId_example_2: "createId ''D:/a.pdf'' (- 1) 0 0 = ''fffffffffffffd8afffffffe00000274''"
  by (simp add: createId_def byte_sum_example to_hex_small to_hex_large hex_digit_def setw_fill_def
        signed_modulo_int_def replicate_pad)

text \<open>
  Two identifiers, computed with the theorem: for the sentinel \<open>-1\<close> that
  \<open>get_epoch_time\<close> returns on an error the remainder by 3600 is \<open>-1\<close>.
\<close>

theorem create_unique_id_encoding_witness:
  "create_unique_id ''D:/a.pdf'' 1700000000 12 5 = ''bb056e508000000008256e50882''
   \<and> create_unique_id ''D:/a.pdf'' (- 1) 0 0 = ''fffffffffffffd8afffffffe00000274''"
proof -
  have "sint (1700000000 :: 32 word) = 1700000000" "sint (12 :: 32 word) = 12"
    "sint (5 :: 32 word) = 5" "sint (- 1 :: 32 word) = - 1" "sint (0 :: 32 word) = 0"
    by simp_all
  with create_unique_id_encoding [of "''D:/a.pdf''" 1700000000 12 5]
       create_unique_id_encoding [of "''D:/a.pdf''" "- 1" 0 0]
  show ?thesis by (simp only: createId_example_1 createId_example_2 simp_thms)
qed


section \<open>Ingestion: the row of a file\<close>

lemma token_filter_all_pass:
  assumes "\<forall>(k, v) \<in> set tokens. contains_only_letters k \<and> length k \<le> size_t_of_int ml \<and> mv \<le> v"
  shows "token_filter tokens ml mv rd = map (\<lambda>(k, v). (k, v, ddiv (double_of_int v) rd)) tokens"
  using assms by (induction tokens) auto

lemma erase_invalid_pass:
  "\<forall>(k, v) \<in> set (erase_invalid m).
     contains_only_letters k \<and> length k \<le> size_t_of_int ENV_max_length \<and> ENV_min_value \<le> v"
  by (auto simp add: erase_invalid_def contains_only_letters_def)

lemma filtered_tokens_row:
  "filtered_tokens (DataEntry_row stem m) =
   map (\<lambda>(k, v). (k, v, ddiv (double_of_int v) (Pythagoras (erase_invalid m)))) (erase_invalid m)"
  by (simp add: DataEntry_row_def Let_def token_filter_all_pass [OF erase_invalid_pass])

lemma erase_invalid_eq:
  "erase_invalid m =
   filter (\<lambda>(k, v). (\<forall>c \<in> set k. is_lower_letter c) \<and> length k \<le> 14 \<and> 3 \<le> v) m"
proof -
  have "size_t_of_int ENV_max_length = 14"
    by (simp add: size_t_of_int_def ENV_max_length_def)
  then show ?thesis
    unfolding erase_invalid_def
    by (intro filter_cong refl) (auto simp add: ENV_min_value_def list_all_iff)
qed


lemma int32_small: "- 2147483648 \<le> k \<Longrightarrow> k \<le> 2147483647 \<Longrightarrow> int32 k = k"
  unfolding int32_def by (rule signed_take_bit_int_eq_self) simp_all












section \<open>The norm of the prompt\<close>

lemma floor_sqrt_2: "\<lfloor>sqrt 2\<rfloor> = 1"
proof (rule floor_unique)
  show "of_int 1 \<le> sqrt 2" by simp
  have "sqrt 2 < 2" by (rule real_less_lsqrt) simp_all
  then show "sqrt 2 < of_int 1 + 1" by simp
qed

lemma sqrt_2_range: "sqrt 2 < 2147483648" "- 2147483649 < sqrt 2"
proof -
  have "sqrt 2 < 2" by (rule real_less_lsqrt) simp_all
  then show "sqrt 2 < 2147483648" by linarith
  have "0 \<le> sqrt 2" by simp
  then show "- 2147483649 < sqrt 2" by linarith
qed

text \<open>
  Claim C5 against the code. \<open>processPrompt\<close> stores the norm of the prompt in an \<open>int\<close>,
  so the filter divides by the norm with its fraction dropped: for the prompt
  \<open>{"apple":1, "pear":1}\<close> the norm is \<open>sqrt 2\<close>, the divisor is 1 and both weights are 1,
  where the exact norm gives \<open>1 / sqrt 2\<close>.
\<close>

theorem prompt_norm_truncated:
  "prompt_tokens [(''apple'', 1), (''pear'', 1)] = [(''apple'', 1, Finite 1), (''pear'', 1, Finite 1)]
   \<and> token_filter [(''apple'', 1), (''pear'', 1)] 16 1 (Pythagoras [(''apple'', 1), (''pear'', 1)]) =
       [(''apple'', 1, Finite (1 / sqrt 2)), (''pear'', 1, Finite (1 / sqrt 2))]
   \<and> Finite (1 / sqrt 2) \<noteq> Finite 1"
proof -
  have p: "Pythagoras [(''apple'', 1), (''pear'', 1)] = Finite (sqrt 2)"
    by (simp add: Pythagoras_def double_of_int_def int32_small)
  have d: "int_of_double (Finite (sqrt 2)) = 1"
    using sqrt_2_range by (simp add: floor_sqrt_2)
  show ?thesis
    by (simp add: prompt_tokens_def p d contains_only_letters_def is_lower_letter_def
          size_t_of_int_def double_of_int_def del: int_of_double.simps)
qed

section \<open>Degenerate vectors\<close>

lemma token_filter_member:
  assumes "(t, f, w) \<in> set (token_filter tokens ml mv rd)"
  shows "(t, f) \<in> set tokens \<and> mv \<le> f \<and> w = ddiv (double_of_int f) rd"
  using assms by (induction tokens) (auto split: if_splits)

lemma token_filter_none:
  assumes "\<forall>(k, v) \<in> set tokens. v < mv"
  shows "token_filter tokens ml mv rd = []"
  using assms by (induction tokens) auto

lemma square_fits:
  assumes "\<bar>v\<bar> \<le> 46340"
  shows "int32 (v * v) = v * v"
proof -
  have "v * v = \<bar>v\<bar> * \<bar>v\<bar>" by simp
  also have "\<dots> \<le> 46340 * 46340"
    using assms by (intro mult_mono) simp_all
  finally have "v * v \<le> 2147483647" by simp
  moreover have "0 \<le> v * v" by simp
  ultimately show ?thesis by (intro int32_small) linarith+
qed

lemma sum_squares_foldl:
  assumes "\<forall>(k, v) \<in> set tokens. \<bar>v\<bar> \<le> 46340"
  shows "foldl (\<lambda>result (key, value). dadd result (double_of_int (int32 (value * value))))
           (Finite a) tokens =
         Finite (a + (\<Sum>(key, value) \<leftarrow> tokens. (real_of_int value)\<^sup>2))"
  using assms
proof (induction tokens arbitrary: a)
  case Nil
  show ?case by simp
next
  case (Cons p tokens)
  obtain k v where p: "p = (k, v)" by (cases p)
  from Cons.prems have v: "\<bar>v\<bar> \<le> 46340" and rest: "\<forall>(k, v) \<in> set tokens. \<bar>v\<bar> \<le> 46340"
    by (simp_all add: p)
  let ?f = "\<lambda>result (key, value). dadd result (double_of_int (int32 (value * value)))"
  have "foldl ?f (Finite a) (p # tokens) = foldl ?f (Finite (a + (real_of_int v)\<^sup>2)) tokens"
    by (simp add: p square_fits [OF v] double_of_int_def power2_eq_square)
  also have "\<dots> = Finite (a + (real_of_int v)\<^sup>2 + (\<Sum>(key, value) \<leftarrow> tokens. (real_of_int value)\<^sup>2))"
    by (rule Cons.IH [OF rest])
  finally show ?case by (simp add: p add.assoc)
qed

lemma sum_squares_nonneg: "0 \<le> (\<Sum>(key, value) \<leftarrow> tokens. (real_of_int value)\<^sup>2)"
  by (induction tokens) auto

lemma Pythagoras_exact:
  assumes "\<forall>(k, v) \<in> set tokens. \<bar>v\<bar> \<le> 46340"
  shows "Pythagoras tokens = Finite (euclidean_norm tokens)"
  using sum_squares_nonneg [of tokens]
  by (simp add: Pythagoras_def euclidean_norm_def sum_squares_foldl [OF assms])

lemma euclidean_norm_zero:
  "euclidean_norm tokens = 0 \<longleftrightarrow> (\<forall>(k, v) \<in> set tokens. v = 0)"
proof -
  have "(\<Sum>(key, value) \<leftarrow> tokens. (real_of_int value)\<^sup>2) = 0 \<longleftrightarrow> (\<forall>(k, v) \<in> set tokens. v = 0)"
  proof (induction tokens)
    case Nil
    show ?case by simp
  next
    case (Cons p tokens)
    obtain k v where p: "p = (k, v)" by (cases p)
    have "(real_of_int v)\<^sup>2 + (\<Sum>(key, value) \<leftarrow> tokens. (real_of_int value)\<^sup>2) = 0 \<longleftrightarrow>
          (real_of_int v)\<^sup>2 = 0 \<and> (\<Sum>(key, value) \<leftarrow> tokens. (real_of_int value)\<^sup>2) = 0"
      using sum_squares_nonneg [of tokens] by (intro add_nonneg_eq_0_iff) simp_all
    then show ?case using Cons.IH by (simp add: p)
  qed
  then show ?thesis by (simp add: euclidean_norm_def)
qed

lemma euclidean_norm_ge:
  assumes "(k, v) \<in> set tokens"
  shows "\<bar>real_of_int v\<bar> \<le> euclidean_norm tokens"
proof -
  have "(real_of_int v)\<^sup>2 \<le> (\<Sum>(key, value) \<leftarrow> tokens. (real_of_int value)\<^sup>2)"
    using assms
  proof (induction tokens)
    case Nil
    then show ?case by simp
  next
    case (Cons p tokens)
    obtain k' v' where p: "p = (k', v')" by (cases p)
    show ?case
    proof (cases "(k, v) = p")
      case True
      then show ?thesis using sum_squares_nonneg [of tokens] by (auto simp add: p)
    next
      case False
      with Cons.prems have "(k, v) \<in> set tokens" by simp
      from Cons.IH [OF this] show ?thesis by (simp add: p add_increasing)
    qed
  qed
  then have "sqrt ((real_of_int v)\<^sup>2) \<le> euclidean_norm tokens"
    unfolding euclidean_norm_def by (rule real_sqrt_le_mono)
  then show ?thesis by simp
qed


lemma erase_invalid_subset: "set (erase_invalid m) \<subseteq> set m"
  by (auto simp add: erase_invalid_def)

lemma erase_invalid_min: "(k, v) \<in> set (erase_invalid m) \<Longrightarrow> 3 \<le> v"
  by (auto simp add: erase_invalid_def ENV_min_value_def)

lemma ingest_degenerate:
  assumes "euclidean_norm (erase_invalid m) = 0"
  shows "filtered_tokens (DataEntry_row stem m) = []"
proof -
  have "erase_invalid m = []"
  proof (cases "erase_invalid m")
    case Nil
    then show ?thesis .
  next
    case (Cons p ps)
    obtain k v where p: "p = (k, v)" by (cases p)
    have mem: "(k, v) \<in> set (erase_invalid m)" by (simp add: Cons p)
    from assms mem have "v = 0" by (auto simp add: euclidean_norm_zero)
    with erase_invalid_min [OF mem] show ?thesis by simp
  qed
  then show ?thesis by (simp add: filtered_tokens_row)
qed

lemma euclidean_norm_erase:
  assumes "euclidean_norm m = 0"
  shows "euclidean_norm (erase_invalid m) = 0"
  using assms erase_invalid_subset [of m] unfolding euclidean_norm_zero by blast

lemma query_degenerate:
  assumes "euclidean_norm m = 0"
  shows "prompt_tokens m = []"
proof -
  from assms have "\<forall>(k, v) \<in> set m. v < 1"
    by (auto simp add: euclidean_norm_zero)
  then show ?thesis
    unfolding prompt_tokens_def Let_def by (rule token_filter_none)
qed

lemma ingest_finite:
  assumes "\<forall>(k, v) \<in> set m. \<bar>v\<bar> \<le> 46340"
    and "(t, f, w) \<in> set (filtered_tokens (DataEntry_row stem m))"
  shows "is_finite w"
proof -
  let ?e = "erase_invalid m"
  from assms(2) have mem: "(t, f) \<in> set ?e" and w: "w = ddiv (double_of_int f) (Pythagoras ?e)"
    by (auto simp add: filtered_tokens_row)
  from assms(1) erase_invalid_subset [of m] have "\<forall>(k, v) \<in> set ?e. \<bar>v\<bar> \<le> 46340"
    by blast
  then have py: "Pythagoras ?e = Finite (euclidean_norm ?e)"
    by (rule Pythagoras_exact)
  from erase_invalid_min [OF mem] euclidean_norm_ge [OF mem] have "euclidean_norm ?e \<noteq> 0"
    by simp
  then show ?thesis by (simp add: w py double_of_int_def)
qed

lemma int_of_double_ge_1:
  assumes "1 \<le> x"
  shows "int_of_double (Finite x) \<noteq> 0"
proof (cases "x < 2147483648")
  case True
  from assms have fl: "1 \<le> \<lfloor>x\<rfloor>" by (simp add: le_floor_iff)
  have "int_of_double (Finite x) = \<lfloor>x\<rfloor>" using True assms by simp
  with fl show ?thesis by linarith
next
  case False
  then show ?thesis by simp
qed

lemma prompt_distance_nonzero:
  assumes "\<forall>(k, v) \<in> set m. \<bar>v\<bar> \<le> 46340" and "(t, f) \<in> set m" and "1 \<le> f"
  shows "int_of_double (Pythagoras m) \<noteq> 0"
proof -
  have "1 \<le> \<bar>real_of_int f\<bar>" using assms(3) by simp
  with euclidean_norm_ge [OF assms(2)] have "1 \<le> euclidean_norm m" by linarith
  then show ?thesis
    unfolding Pythagoras_exact [OF assms(1)] by (rule int_of_double_ge_1)
qed

lemma query_finite:
  assumes "\<forall>(k, v) \<in> set m. \<bar>v\<bar> \<le> 46340"
    and "(t, f, w) \<in> set (prompt_tokens m)"
  shows "is_finite w"
proof -
  from assms(2) have mem: "(t, f) \<in> set m" and f: "1 \<le> f"
    and w: "w = ddiv (double_of_int f) (double_of_int (int_of_double (Pythagoras m)))"
    by (auto simp add: prompt_tokens_def Let_def dest: token_filter_member)
  from prompt_distance_nonzero [OF assms(1) mem f] show ?thesis
    by (simp add: w double_of_int_def)
qed

lemma ingest_zero_distance:
  assumes "\<forall>(k, v) \<in> set m. \<bar>v\<bar> \<le> 46340"
    and "relational_distance (DataEntry_row stem m) = Finite 0"
  shows "filtered_tokens (DataEntry_row stem m) = []"
proof -
  from assms(1) erase_invalid_subset [of m] have "\<forall>(k, v) \<in> set (erase_invalid m). \<bar>v\<bar> \<le> 46340"
    by blast
  then have "Pythagoras (erase_invalid m) = Finite (euclidean_norm (erase_invalid m))"
    by (rule Pythagoras_exact)
  with assms(2) have "euclidean_norm (erase_invalid m) = 0"
    by (simp add: DataEntry_row_def Let_def)
  then show ?thesis by (rule ingest_degenerate)
qed

lemma query_zero_distance:
  assumes "\<forall>(k, v) \<in> set m. \<bar>v\<bar> \<le> 46340"
    and "int_of_double (Pythagoras m) = 0"
  shows "prompt_tokens m = []"
proof -
  have "\<forall>(k, v) \<in> set m. v < 1"
  proof (rule ccontr)
    assume "\<not> (\<forall>(k, v) \<in> set m. v < 1)"
    then obtain k v where "(k, v) \<in> set m" and "1 \<le> v" by force
    from prompt_distance_nonzero [OF assms(1) this] assms(2) show False by simp
  qed
  then show ?thesis
    unfolding prompt_tokens_def Let_def by (rule token_filter_none)
qed

text \<open>
  Claim C8. Neither path tests the norm before it divides, but both pass thresholds that
  exclude every token of a degenerate map: when the Euclidean norm of a map is 0 all its
  frequencies are 0, ingestion (minimum frequency 3) and the query path (minimum
  frequency 1) emit no token at all, and no weight is computed. More generally, as long as
  the square of every frequency fits in an \<open>int\<close> (absolute value at most 46340), an
  emitted token has a frequency of at least 1, the norm that divides it is not 0 and
  every weight is a finite number; a norm of 0 only occurs with an empty result. (A
  frequency whose square overflows \<open>int\<close> is outside the claim: the Euclidean norm of
  such a map is not 0.)
\<close>

theorem degenerate_vector_policy:
  "(euclidean_norm m = 0 \<longrightarrow>
      filtered_tokens (DataEntry_row stem m) = [] \<and> prompt_tokens m = [])
   \<and> ((\<forall>(k, v) \<in> set m. \<bar>v\<bar> \<le> 46340) \<longrightarrow>
        (relational_distance (DataEntry_row stem m) = Finite 0 \<longrightarrow>
           filtered_tokens (DataEntry_row stem m) = [])
      \<and> (int_of_double (Pythagoras m) = 0 \<longrightarrow> prompt_tokens m = [])
      \<and> (\<forall>(t, f, w) \<in> set (filtered_tokens (DataEntry_row stem m)). is_finite w)
      \<and> (\<forall>(t, f, w) \<in> set (prompt_tokens m). is_finite w))"
  using ingest_degenerate [OF euclidean_norm_erase, of m stem] query_degenerate [of m]
    ingest_zero_distance [of m stem] query_zero_distance [of m]
    ingest_finite [of m _ _ _ stem] query_finite [of m]
  by blast


lemma sqrt_25: "sqrt 25 = 5"
  by (rule real_sqrt_unique) simp_all

lemma Pythagoras_3_4: "Pythagoras [(''ab'', 3), (''cd'', 4)] = Finite 5"
  by (simp add: Pythagoras_def double_of_int_def int32_small sqrt_25)

lemma Pythagoras_Nil: "Pythagoras [] = Finite 0"
  by (simp add: Pythagoras_def)

theorem degenerate_vector_policy_witness:
  "euclidean_norm [(''ab'', 0)] = 0
   \<and> filtered_tokens (DataEntry_row ''doc'' [(''ab'', 0)]) = []
   \<and> prompt_tokens [(''ab'', 0)] = []
   \<and> relational_distance (DataEntry_row ''doc'' [(''ab'', 2)]) = Finite 0
   \<and> filtered_tokens (DataEntry_row ''doc'' [(''ab'', 2)]) = []
   \<and> filtered_tokens (DataEntry_row ''doc'' [(''ab'', 3), (''cd'', 4)]) =
       [(''ab'', 3, Finite (3 / 5)), (''cd'', 4, Finite (4 / 5))]
   \<and> list_all (\<lambda>(t, f, w). is_finite w)
         (filtered_tokens (DataEntry_row ''doc'' [(''ab'', 3), (''cd'', 4)]))
   \<and> prompt_tokens [(''ab'', 3), (''cd'', 4)] =
       [(''ab'', 3, Finite (3 / 5)), (''cd'', 4, Finite (4 / 5))]
   \<and> list_all (\<lambda>(t, f, w). is_finite w) (prompt_tokens [(''ab'', 3), (''cd'', 4)])"
proof -
  have n: "euclidean_norm [(''ab'', 0)] = 0"
    by (simp add: euclidean_norm_def)
  have e2: "erase_invalid [(''ab'', 2)] = []"
    by (simp add: erase_invalid_eq)
  have r: "relational_distance (DataEntry_row ''doc'' [(''ab'', 2)]) = Finite 0"
    by (simp add: DataEntry_row_def Let_def e2 Pythagoras_Nil)
  have b2: "\<forall>(k, v) \<in> set [(''ab'', 2 :: int)]. \<bar>v\<bar> \<le> 46340"
    by simp
  have b: "\<forall>(k, v) \<in> set [(''ab'', 3 :: int), (''cd'', 4)]. \<bar>v\<bar> \<le> 46340"
    by simp
  have e: "erase_invalid [(''ab'', 3), (''cd'', 4)] = [(''ab'', 3), (''cd'', 4)]"
    by (simp add: erase_invalid_eq is_lower_letter_def)
  have f: "filtered_tokens (DataEntry_row ''doc'' [(''ab'', 3), (''cd'', 4)]) =
       [(''ab'', 3, Finite (3 / 5)), (''cd'', 4, Finite (4 / 5))]"
    by (simp add: filtered_tokens_row e Pythagoras_3_4 double_of_int_def)
  have q: "prompt_tokens [(''ab'', 3), (''cd'', 4)] =
       [(''ab'', 3, Finite (3 / 5)), (''cd'', 4, Finite (4 / 5))]"
    by (simp add: prompt_tokens_def Pythagoras_3_4 contains_only_letters_def is_lower_letter_def
          size_t_of_int_def double_of_int_def)
  from degenerate_vector_policy [of "[(''ab'', 0)]" "''doc''"] n
  have 1: "filtered_tokens (DataEntry_row ''doc'' [(''ab'', 0)]) = [] \<and> prompt_tokens [(''ab'', 0)] = []"
    by blast
  from degenerate_vector_policy [of "[(''ab'', 2)]" "''doc''"] b2 r
  have 2: "filtered_tokens (DataEntry_row ''doc'' [(''ab'', 2)]) = []"
    by blast
  from degenerate_vector_policy [of "[(''ab'', 3), (''cd'', 4)]" "''doc''"] b
  have 3: "list_all (\<lambda>(t, f, w). is_finite w)
         (filtered_tokens (DataEntry_row ''doc'' [(''ab'', 3), (''cd'', 4)]))
     \<and> list_all (\<lambda>(t, f, w). is_finite w) (prompt_tokens [(''ab'', 3), (''cd'', 4)])"
    unfolding list_all_iff by blast
  from n 1 r 2 f q 3 show ?thesis by blast
qed


section \<open>The score of a document\<close>

lemma dadd_zero: "dadd x (Finite 0) = x"
  by (cases x) simp_all

lemma fetched_weight:
  assumes "token \<in> fst ` set fts"
  shows "(case relation_distance_map db fts file_name of None \<Rightarrow> None | Some row \<Rightarrow> row token) =
         map_option snd (relation_distance db (file_name, token))"
proof (cases "relation_distance db (file_name, token)")
  case None
  then show ?thesis by (simp add: relation_distance_map_def)
next
  case (Some a)
  from assms obtain f w where "(token, f, w) \<in> set fts" by force
  with Some have "list_ex (\<lambda>(token, frequency, weight). relation_distance db (file_name, token) \<noteq> None) fts"
    unfolding list_ex_iff by (intro bexI [of _ "(token, f, w)"]) simp_all
  with assms Some show ?thesis by (simp add: relation_distance_map_def)
qed

lemma total_distance_step:
  assumes "token \<in> fst ` set fts"
  shows "(case relation_distance_map db fts file_name of
            None \<Rightarrow> acc
          | Some row \<Rightarrow>
              (case row token of None \<Rightarrow> acc | Some rd \<Rightarrow> dadd acc (dmul weight rd))) =
         dadd acc (case relation_distance db (file_name, token) of
                     None \<Rightarrow> Finite 0
                   | Some (storedFrequency, storedWeight) \<Rightarrow> dmul weight storedWeight)"
proof -
  have "(case relation_distance_map db fts file_name of
            None \<Rightarrow> acc
          | Some row \<Rightarrow>
              (case row token of None \<Rightarrow> acc | Some rd \<Rightarrow> dadd acc (dmul weight rd))) =
        (case (case relation_distance_map db fts file_name of None \<Rightarrow> None | Some row \<Rightarrow> row token) of
            None \<Rightarrow> acc | Some rd \<Rightarrow> dadd acc (dmul weight rd))"
    by (simp split: option.splits)
  also have "\<dots> = (case map_option snd (relation_distance db (file_name, token)) of
            None \<Rightarrow> acc | Some rd \<Rightarrow> dadd acc (dmul weight rd))"
    by (simp only: fetched_weight [OF assms])
  also have "\<dots> = dadd acc (case relation_distance db (file_name, token) of
                     None \<Rightarrow> Finite 0
                   | Some (storedFrequency, storedWeight) \<Rightarrow> dmul weight storedWeight)"
    by (simp add: dadd_zero split: option.splits)
  finally show ?thesis .
qed

lemma total_distance_score: "total_distance (relation_distance_map db fts) ident fts = score db fts ident"
proof -
  have "total_distance (relation_distance_map db fts) ident fts =
        foldl (\<lambda>acc (token, frequency, weight).
                 dadd acc (case relation_distance db (''title_'' @ ident, token) of
                     None \<Rightarrow> Finite 0
                   | Some (storedFrequency, storedWeight) \<Rightarrow> dmul weight storedWeight))
          (Finite 0) fts"
    unfolding total_distance_def
  proof (rule foldl_cong [OF refl refl])
    fix a x
    assume x: "x \<in> set fts"
    obtain token frequency weight where e: "x = (token, frequency, weight)" by (cases x)
    from x have "token \<in> fst ` set fts" by (force simp add: e)
    then show "(case x of
            (token, frequency, relational_distance_weight) \<Rightarrow>
              (case relation_distance_map db fts (''title_'' @ ident) of
              None \<Rightarrow> a
              | Some row \<Rightarrow>
                  (case row token of None \<Rightarrow> a
                  | Some rd \<Rightarrow> dadd a (dmul relational_distance_weight rd)))) =
           (case x of
            (token, frequency, weight) \<Rightarrow>
              dadd a
               (case relation_distance db (''title_'' @ ident, token) of
                None \<Rightarrow> Finite 0
                | Some (storedFrequency, storedWeight) \<Rightarrow>
                    dmul weight storedWeight))"
      unfolding e prod.case by (rule total_distance_step)
  qed
  also have "\<dots> = score db fts ident"
    unfolding score_def foldl_map by (simp add: case_prod_unfold)
  finally show ?thesis .
qed

lemma foldl_dadd_finite:
  assumes "\<forall>d \<in> set ds. is_finite d"
  shows "foldl dadd (Finite a) ds = Finite (a + sum_list (map real_of_double ds))"
  using assms
proof (induction ds arbitrary: a)
  case Nil
  show ?case by simp
next
  case (Cons d ds)
  then obtain r where d: "d = Finite r" by (cases d) simp_all
  from Cons.prems have "\<forall>d \<in> set ds. is_finite d" by simp
  from Cons.IH [OF this] show ?case by (simp add: d add.assoc)
qed


lemma map_filter_rows:
  "List.map_filter
     (\<lambda>(id_text, file_name_text).
        case (id_text, file_name_text) of
          (Some ident, Some file_name) \<Rightarrow> Some (ident, file_name, sc ident)
        | _ \<Rightarrow> None) rows =
   map (\<lambda>(ident, file_name). (ident, file_name, sc ident))
     (List.map_filter
        (\<lambda>(id_text, file_name_text).
           case (id_text, file_name_text) of
             (Some ident, Some file_name) \<Rightarrow> Some (ident, file_name)
           | _ \<Rightarrow> None) rows)"
  by (induction rows) (auto split: option.splits)

lemma RESULT_scores:
  "RESULT db fts =
   map (\<lambda>(ident, file_name). (ident, file_name, score db fts ident))
     (List.map_filter
        (\<lambda>(id_text, file_name_text).
           case (id_text, file_name_text) of
             (Some ident, Some file_name) \<Rightarrow> Some (ident, file_name)
           | _ \<Rightarrow> None)
        (file_info db))"
  unfolding RESULT_def total_distance_score by (rule map_filter_rows)

lemma score_finite:
  assumes "\<forall>(t, f, w) \<in> set fts. is_finite w"
    and "\<forall>key fr rd. relation_distance db key = Some (fr, rd) \<longrightarrow> is_finite rd"
  shows "score db fts doc =
         Finite (\<Sum>(token, frequency, weight) \<leftarrow> fts.
                   real_of_double weight *
                   (case relation_distance db (''title_'' @ doc, token) of
                      None \<Rightarrow> 0
                    | Some (storedFrequency, storedWeight) \<Rightarrow> real_of_double storedWeight))"
proof -
  let ?contribution = "\<lambda>(token, frequency, weight).
               case relation_distance db (''title_'' @ doc, token) of
                 None \<Rightarrow> Finite 0
               | Some (storedFrequency, storedWeight) \<Rightarrow> dmul weight storedWeight"
  have fin: "is_finite (?contribution x) \<and>
             real_of_double (?contribution x) =
             (case x of (token, frequency, weight) \<Rightarrow>
                real_of_double weight *
                (case relation_distance db (''title_'' @ doc, token) of
                   None \<Rightarrow> 0
                 | Some (storedFrequency, storedWeight) \<Rightarrow> real_of_double storedWeight))"
    if x: "x \<in> set fts" for x
  proof -
    obtain token frequency weight where e: "x = (token, frequency, weight)" by (cases x)
    from assms(1) x obtain r where w: "weight = Finite r"
      by (cases weight) (auto simp add: e)
    show ?thesis
    proof (cases "relation_distance db (''title_'' @ doc, token)")
      case None
      then show ?thesis by (simp add: e)
    next
      case (Some a)
      obtain fr rd where a: "a = (fr, rd)" by (cases a)
      from assms(2) [rule_format, of "(''title_'' @ doc, token)" fr rd] Some
      have "is_finite rd" by (simp add: a)
      then obtain q where "rd = Finite q"
        by (cases rd) simp_all
      with Some show ?thesis by (simp add: e a w)
    qed
  qed
  then have "\<forall>d \<in> set (map ?contribution fts). is_finite d" by auto
  then have "score db fts doc = Finite (0 + sum_list (map real_of_double (map ?contribution fts)))"
    unfolding score_def by (rule foldl_dadd_finite)
  also have "map real_of_double (map ?contribution fts) =
       map (\<lambda>(token, frequency, weight).
                   real_of_double weight *
                   (case relation_distance db (''title_'' @ doc, token) of
                      None \<Rightarrow> 0
                    | Some (storedFrequency, storedWeight) \<Rightarrow> real_of_double storedWeight)) fts"
    using fin by simp
  finally show ?thesis by simp
qed


text \<open>
  Claim C4. \<open>processPrompt\<close> builds one result row for every row of \<open>file_info\<close> whose
  id and file name are not \<open>NULL\<close>, in the order of retrieval, and the distance of the row
  is the score of the document: the sum, over the filtered tokens of the query, of the
  weight of the query token times the weight stored for the key \<open>"title_" + id\<close> and the
  token, where a pair that has no stored weight contributes 0. The weights that the
  function fetches beforehand are exactly the stored weights of the tokens of the query,
  so the sum may be read on the table itself. When all the weights involved are finite
  the score is that sum of real numbers.
\<close>

theorem score_weighted_overlap:
  "RESULT db fts =
     map (\<lambda>(ident, file_name). (ident, file_name, score db fts ident))
       (List.map_filter
          (\<lambda>(id_text, file_name_text).
             case (id_text, file_name_text) of
               (Some ident, Some file_name) \<Rightarrow> Some (ident, file_name)
             | _ \<Rightarrow> None)
          (file_info db))
   \<and> ((\<forall>(t, f, w) \<in> set fts. is_finite w)
        \<and> (\<forall>key fr rd. relation_distance db key = Some (fr, rd) \<longrightarrow> is_finite rd) \<longrightarrow>
      score db fts doc =
        Finite (\<Sum>(token, frequency, weight) \<leftarrow> fts.
                  real_of_double weight *
                  (case relation_distance db (''title_'' @ doc, token) of
                     None \<Rightarrow> 0
                   | Some (storedFrequency, storedWeight) \<Rightarrow> real_of_double storedWeight)))"
  using RESULT_scores [of db fts] score_finite [of fts db doc] by blast

theorem score_weighted_overlap_witness:
  "RESULT \<lparr>file_token = Map.empty,
           relation_distance = [(''title_1'', ''apple'') \<mapsto> (5, Finite 1),
                                (''title_2'', ''pear'') \<mapsto> (9, Finite 1)],
           file_info = [(Some ''1'', Some ''doc1''), (None, Some ''lost''), (Some ''2'', Some ''doc2'')]\<rparr>
     [(''apple'', 4, Finite 1), (''fig'', 1, Finite (1 / 4))] =
   [(''1'', ''doc1'', Finite 1), (''2'', ''doc2'', Finite 0)]"
proof -
  let ?db = "\<lparr>file_token = Map.empty,
           relation_distance = [(''title_1'', ''apple'') \<mapsto> (5 :: int, Finite 1),
                                (''title_2'', ''pear'') \<mapsto> (9, Finite 1)],
           file_info = [(Some ''1'', Some ''doc1''), (None, Some ''lost''), (Some ''2'', Some ''doc2'')]\<rparr>"
  let ?fts = "[(''apple'', 4 :: int, Finite 1), (''fig'', 1, Finite (1 / 4))]"
  have q: "\<forall>(t, f, w) \<in> set ?fts. is_finite w" by simp
  have d: "\<forall>key fr rd. relation_distance ?db key = Some (fr, rd) \<longrightarrow> is_finite rd"
    by (auto split: if_splits)
  note t = score_weighted_overlap [of ?db ?fts]
  have 1: "score ?db ?fts ''1'' = Finite 1"
    using t [of "''1''", THEN conjunct2] q d by simp
  have 2: "score ?db ?fts ''2'' = Finite 0"
    using t [of "''2''", THEN conjunct2] q d by simp
  show ?thesis
    by (subst t [of "''1''", THEN conjunct1]) (simp add: 1 2)
qed


section \<open>The ranked output\<close>














section \<open>Ingestion: the transaction\<close>
























section \<open>The document key between ingestion and query\<close>






























end
